theory Spec2Isabelle
  imports Main
begin

section \<open>DOM elements, class lists and events\<close>

text \<open>
  DOM elements are identified by a number; two references denote the same element exactly
  when the numbers agree.  The class list of every element lives in one shared store, so an
  element that is reached through two references (a panel that is also a toggle, the body
  that is also a panel) is updated through both.
\<close>

type_synonym elem = nat

type_synonym classes = "elem \<Rightarrow> string set"

definition classList_add :: "elem \<Rightarrow> string \<Rightarrow> classes \<Rightarrow> classes" where
  "classList_add e c s = s(e := insert c (s e))"

definition classList_remove :: "elem \<Rightarrow> string \<Rightarrow> classes \<Rightarrow> classes" where
  "classList_remove e c s = s(e := s e - {c})"

definition classList_contains :: "classes \<Rightarrow> elem \<Rightarrow> string \<Rightarrow> bool" where
  "classList_contains s e c = (c \<in> s e)"

text \<open>
  An event carries the two flags that \<^verbatim>\<open>preventDefault\<close> and \<^verbatim>\<open>stopPropagation\<close> set;
  a keyboard event extends it with the key.
\<close>

record event =
  defaultPrevented :: bool
  propagationStopped :: bool

record keyboardEvent = event +
  key :: string

definition preventDefault :: "'a event_scheme \<Rightarrow> 'a event_scheme" where
  "preventDefault ev = ev\<lparr>defaultPrevented := True\<rparr>"

definition stopPropagation :: "'a event_scheme \<Rightarrow> 'a event_scheme" where
  "stopPropagation ev = ev\<lparr>propagationStopped := True\<rparr>"

section \<open>Panels (\<^verbatim>\<open>setupPanels\<close>)\<close>

text \<open>One entry of \<^verbatim>\<open>panelMap\<close>: the panel, the toggles that refer to it, its closer.\<close>

record entry =
  panel :: elem
  toggles :: "elem list"
  closer :: "elem option"

type_synonym panelMap = "entry list"

text \<open>
  The functions below are the closures of \<^verbatim>\<open>setupPanels\<close>; the captured \<^verbatim>\<open>panelMap\<close> and
  \<^verbatim>\<open>body\<close> are passed explicitly.  \<^verbatim>\<open>forEach\<close> is a left-to-right \<^const>\<open>fold\<close>.
\<close>

definition hidePanel :: "elem \<Rightarrow> elem \<Rightarrow> elem list \<Rightarrow> classes \<Rightarrow> classes" where
  "hidePanel body p ts s =
     (let s1 = classList_remove p ''active'' s;
          s2 = fold (\<lambda>toggle. classList_remove toggle ''active'') ts s1
      in classList_remove body ''content-active'' s2)"

definition hideAll :: "panelMap \<Rightarrow> elem \<Rightarrow> classes \<Rightarrow> classes" where
  "hideAll pm body s = fold (\<lambda>en. hidePanel body (panel en) (toggles en)) pm s"

definition showPanel :: "panelMap \<Rightarrow> elem \<Rightarrow> elem \<Rightarrow> elem list \<Rightarrow> classes \<Rightarrow> classes" where
  "showPanel pm body p ts s =
     (let s1 = hideAll pm body s;
          s2 = classList_add p ''active'' s1;
          s3 = fold (\<lambda>toggle. classList_add toggle ''active'') ts s2
      in classList_add body ''content-active'' s3)"

definition togglePanel :: "panelMap \<Rightarrow> elem \<Rightarrow> elem \<Rightarrow> elem list \<Rightarrow> classes \<Rightarrow> classes" where
  "togglePanel pm body p ts s =
     (if classList_contains s p ''active'' then hidePanel body p ts s
      else showPanel pm body p ts s)"

definition panelStopPropagation :: "'a event_scheme \<Rightarrow> classes \<Rightarrow> 'a event_scheme \<times> classes" where
  "panelStopPropagation ev s = (stopPropagation ev, s)"

definition onToggleClick ::
  "panelMap \<Rightarrow> elem \<Rightarrow> elem \<Rightarrow> elem list \<Rightarrow> 'a event_scheme \<Rightarrow> classes \<Rightarrow> 'a event_scheme \<times> classes" where
  "onToggleClick pm body p ts ev s =
     (stopPropagation (preventDefault ev), togglePanel pm body p ts s)"

definition onCloseClick ::
  "elem \<Rightarrow> elem \<Rightarrow> elem list \<Rightarrow> 'a event_scheme \<Rightarrow> classes \<Rightarrow> 'a event_scheme \<times> classes" where
  "onCloseClick body p ts ev s = (preventDefault ev, hidePanel body p ts s)"

definition onBodyClick ::
  "panelMap \<Rightarrow> elem \<Rightarrow> 'a event_scheme \<Rightarrow> classes \<Rightarrow> 'a event_scheme \<times> classes" where
  "onBodyClick pm body ev s =
     (if classList_contains s body ''content-active''
      then (stopPropagation (preventDefault ev), hideAll pm body s)
      else (ev, s))"

definition onKeyUp ::
  "panelMap \<Rightarrow> elem \<Rightarrow> 'a keyboardEvent_scheme \<Rightarrow> classes \<Rightarrow> 'a keyboardEvent_scheme \<times> classes" where
  "onKeyUp pm body ev s =
     (if key ev = ''Escape'' \<and> classList_contains s body ''content-active''
      then (stopPropagation (preventDefault ev), hideAll pm body s)
      else (ev, s))"

subsection \<open>User events on the panels\<close>

text \<open>
  A click is delivered to the listener of its target and then bubbles: to the panel that
  contains a closer, and finally to the body, unless a listener on the way has stopped the
  propagation.  An entry that is not in \<^verbatim>\<open>panelMap\<close>, an entry without toggles and an
  entry without closer have no listener, so the click reaches the body listener at once.
\<close>

datatype panelEvent =
    ToggleClick entry
  | CloseClick entry
  | PanelClick entry
  | OutsideClick
  | KeyUp string

definition freshEvent :: event where
  "freshEvent = \<lparr>defaultPrevented = False, propagationStopped = False\<rparr>"

definition freshKey :: "string \<Rightarrow> keyboardEvent" where
  "freshKey k = \<lparr>defaultPrevented = False, propagationStopped = False, key = k\<rparr>"

definition bubbleToBody ::
  "panelMap \<Rightarrow> elem \<Rightarrow> event \<times> classes \<Rightarrow> event \<times> classes" where
  "bubbleToBody pm body r =
     (if propagationStopped (fst r) then r else onBodyClick pm body (fst r) (snd r))"

fun dispatch :: "panelMap \<Rightarrow> elem \<Rightarrow> panelEvent \<Rightarrow> classes \<Rightarrow> classes" where
  "dispatch pm body (ToggleClick en) s =
     (if en \<in> set pm \<and> toggles en \<noteq> []
      then snd (bubbleToBody pm body (onToggleClick pm body (panel en) (toggles en) freshEvent s))
      else snd (bubbleToBody pm body (freshEvent, s)))"
| "dispatch pm body (CloseClick en) s =
     (if en \<in> set pm \<and> closer en \<noteq> None
      then (let r = onCloseClick body (panel en) (toggles en) freshEvent s
            in snd (bubbleToBody pm body (panelStopPropagation (fst r) (snd r))))
      else snd (bubbleToBody pm body (freshEvent, s)))"
| "dispatch pm body (PanelClick en) s =
     (if en \<in> set pm
      then snd (bubbleToBody pm body (panelStopPropagation freshEvent s))
      else snd (bubbleToBody pm body (freshEvent, s)))"
| "dispatch pm body OutsideClick s = snd (bubbleToBody pm body (freshEvent, s))"
| "dispatch pm body (KeyUp k) s = snd (onKeyUp pm body (freshKey k) s)"

definition run :: "panelMap \<Rightarrow> elem \<Rightarrow> classes \<Rightarrow> panelEvent list \<Rightarrow> classes" where
  "run pm body s evs = fold (dispatch pm body) evs s"


subsection \<open>Predicates on the panel state\<close>

definition activePanels :: "panelMap \<Rightarrow> classes \<Rightarrow> elem set" where
  "activePanels pm s = {p \<in> panel ` set pm. classList_contains s p ''active''}"

definition atMostOneActive :: "panelMap \<Rightarrow> classes \<Rightarrow> bool" where
  "atMostOneActive pm s =
     (\<forall>p \<in> activePanels pm s. \<forall>q \<in> activePanels pm s. p = q)"

text \<open>Panels and toggles are different elements: no toggle of an entry is the panel of
  another entry.\<close>

definition togglesApart :: "panelMap \<Rightarrow> bool" where
  "togglesApart pm =
     (\<forall>en \<in> set pm. \<forall>t \<in> set (toggles en). t \<in> panel ` set pm \<longrightarrow> t = panel en)"


text \<open>The body marker is present only when some panel is active.\<close>

definition panelBehindMarker :: "panelMap \<Rightarrow> elem \<Rightarrow> classes \<Rightarrow> bool" where
  "panelBehindMarker pm body s =
     (classList_contains s body ''content-active'' \<longrightarrow> activePanels pm s \<noteq> {})"

subsection \<open>A sample page\<close>

text \<open>Two panels, each with one toggle, the first with a closer; the body is element 7.\<close>

definition sampleBody :: elem where
  "sampleBody = 7"

definition aboutEntry :: entry where
  "aboutEntry = \<lparr>panel = 11, toggles = [21], closer = Some 31\<rparr>"

definition contactEntry :: entry where
  "contactEntry = \<lparr>panel = 12, toggles = [22], closer = None\<rparr>"

definition samplePanels :: panelMap where
  "samplePanels = [aboutEntry, contactEntry]"

definition allClosed :: classes where
  "allClosed = (\<lambda>_. {})"

definition aboutOpen :: classes where
  "aboutOpen = (\<lambda>_. {})(11 := {''active''}, 21 := {''active''}, 7 := {''content-active''})"

text \<open>A page on which the second panel is also the toggle of the first: the selector for
  the toggles of a panel, \<^verbatim>\<open>[href="#id"]\<close>, does not leave panels out.\<close>

definition overlapFirst :: entry where
  "overlapFirst = \<lparr>panel = 11, toggles = [12], closer = None\<rparr>"

definition overlapSecond :: entry where
  "overlapSecond = \<lparr>panel = 12, toggles = [22], closer = None\<rparr>"

definition overlapPanels :: panelMap where
  "overlapPanels = [overlapFirst, overlapSecond]"

section \<open>Footer copyright (\<^verbatim>\<open>setupFooterCopyright\<close>)\<close>

text \<open>
  The part of the DOM tree the function touches: the parent of every element and the ordered
  element children of every element.  \<^verbatim>\<open>appendChild\<close> moves a node: it leaves the children
  of its old parent and becomes the last child of the new one.
\<close>

record dom =
  parentElement :: "elem \<rightharpoonup> elem"
  children :: "elem \<Rightarrow> elem list"

definition appendChild :: "elem \<Rightarrow> elem \<Rightarrow> dom \<Rightarrow> dom" where
  "appendChild p c d =
     (let detached = (case parentElement d c of
                        None \<Rightarrow> children d
                      | Some q \<Rightarrow> (children d)(q := removeAll c (children d q)))
      in \<lparr>parentElement = (parentElement d)(c \<mapsto> p),
          children = detached(p := detached p @ [c])\<rparr>)"

definition lastElementChild :: "dom \<Rightarrow> elem \<Rightarrow> elem option" where
  "lastElementChild d p = (case children d p of [] \<Rightarrow> None | x # xs \<Rightarrow> Some (last (x # xs)))"

text \<open>The three elements the function keeps once it has found them all.\<close>

record footerRefs =
  copyright :: elem
  parent :: elem
  lastParent :: elem

text \<open>
  \<open>found\<close> is the result of \<^verbatim>\<open>footer?.querySelector(".copyright")\<close>: \<open>None\<close> when the page
  has no footer or the footer has no such element.
\<close>

definition lookupFooter :: "dom \<Rightarrow> elem option \<Rightarrow> footerRefs option" where
  "lookupFooter d found =
     (case found of
        None \<Rightarrow> None
      | Some c \<Rightarrow>
          (case parentElement d c of
             None \<Rightarrow> None
           | Some p \<Rightarrow>
               (case parentElement d p of
                  None \<Rightarrow> None
                | Some g \<Rightarrow>
                    (case lastElementChild d g of
                       None \<Rightarrow> None
                     | Some l \<Rightarrow> Some \<lparr>copyright = c, parent = p, lastParent = l\<rparr>))))"

definition updateLocation :: "footerRefs \<Rightarrow> bool \<Rightarrow> dom \<Rightarrow> dom" where
  "updateLocation r matches d =
     (if matches then appendChild (lastParent r) (copyright r) d
      else appendChild (parent r) (copyright r) d)"

definition setupFooterCopyright :: "elem option \<Rightarrow> bool \<Rightarrow> dom \<Rightarrow> footerRefs option \<times> dom" where
  "setupFooterCopyright found matches d =
     (case lookupFooter d found of
        None \<Rightarrow> (None, d)
      | Some r \<Rightarrow> (Some r, updateLocation r matches d))"

text \<open>
  The browser's side of \<^verbatim>\<open>window.matchMedia("(max-width: 980px)")\<close>: the query matches
  exactly when the viewport is at most 980 pixels wide, and the \<^verbatim>\<open>change\<close> listener runs
  when a resize flips the answer.
\<close>

definition maxWidth980 :: "nat \<Rightarrow> bool" where
  "maxWidth980 w = (w \<le> 980)"

record footerPage =
  tree :: dom
  viewport :: nat

definition resize :: "footerRefs \<Rightarrow> nat \<Rightarrow> footerPage \<Rightarrow> footerPage" where
  "resize r w pg =
     (if maxWidth980 w \<noteq> maxWidth980 (viewport pg)
      then \<lparr>tree = updateLocation r (maxWidth980 w) (tree pg), viewport = w\<rparr>
      else \<lparr>tree = tree pg, viewport = w\<rparr>)"

definition resizes :: "footerRefs \<Rightarrow> nat list \<Rightarrow> footerPage \<Rightarrow> footerPage" where
  "resizes r ws pg = fold (resize r) ws pg"

text \<open>The block is where the media query wants it: it is the last child of the container
  for narrow layouts when the query matches, of its original container otherwise.\<close>

definition placed :: "footerRefs \<Rightarrow> footerPage \<Rightarrow> bool" where
  "placed r pg =
     (let target = (if maxWidth980 (viewport pg) then lastParent r else parent r)
      in parentElement (tree pg) (copyright r) = Some target
         \<and> children (tree pg) target \<noteq> []
         \<and> last (children (tree pg) target) = copyright r)"

subsection \<open>A sample footer\<close>

text \<open>The footer 60 holds one element 61 with two columns 62 and 63; the copyright block 65
  is the last child of the first column.\<close>

definition sampleDom :: dom where
  "sampleDom =
     \<lparr>parentElement = [61 \<mapsto> 60, 62 \<mapsto> 61, 63 \<mapsto> 61, 64 \<mapsto> 62, 65 \<mapsto> 62, 66 \<mapsto> 63],
      children = (\<lambda>_. [])(60 := [61], 61 := [62, 63], 62 := [64, 65], 63 := [66])\<rparr>"

definition sampleRefs :: footerRefs where
  "sampleRefs = \<lparr>copyright = 65, parent = 62, lastParent = 63\<rparr>"

section \<open>Gallery items (\<^verbatim>\<open>getGalleryItems\<close>)\<close>

record GalleryItem =
  href :: string
  caption :: "string option"

text \<open>
  What the scan reads of the page: every node has an identity and its outer markup; a
  thumbnail anchor has its own identity, its \<^verbatim>\<open>href\<close> attribute if it has one, and the
  element children of its parent (\<open>None\<close> when it has no parent).
\<close>

record node =
  ident :: elem
  outerHTML :: string

record thumbAnchor =
  self :: elem
  hrefAttribute :: "string option"
  parentChildren :: "node list option"

definition getGalleryItems :: "thumbAnchor list \<Rightarrow> GalleryItem list" where
  "getGalleryItems anchors =
     map (\<lambda>anchor.
            let markup = concat (map outerHTML
                           (filter (\<lambda>nd. ident nd \<noteq> self anchor)
                              (case parentChildren anchor of None \<Rightarrow> [] | Some cs \<Rightarrow> cs)))
            in \<lparr>href = (case hrefAttribute anchor of None \<Rightarrow> [] | Some h \<Rightarrow> h),
                caption = (if markup = [] then None else Some markup)\<rparr>)
         anchors"

text \<open>The caption as section 4.1 of the specification words it: walk over the siblings,
  skip the anchor, join the outer markup.\<close>

fun siblingMarkup :: "elem \<Rightarrow> node list \<Rightarrow> string" where
  "siblingMarkup a [] = []"
| "siblingMarkup a (nd # nds) =
     (if ident nd = a then siblingMarkup a nds else outerHTML nd @ siblingMarkup a nds)"

section \<open>Lightbox (\<^verbatim>\<open>SiteScripts\<close>)\<close>

text \<open>
  The four pieces of component state, and what the preload effect leaves behind between
  renders: the dependency pair of its last run, and the source of the preview image whose
  \<^verbatim>\<open>onload\<close>/\<^verbatim>\<open>onerror\<close> handlers are still attached.
\<close>

record lightbox =
  items :: "GalleryItem list"
  isOpen :: bool
  activeIndex :: int
  isLoading :: bool
  preloadDeps :: "bool \<times> string option"
  preview :: "string option"

text \<open>JavaScript's \<^verbatim>\<open>%\<close> on integers truncates toward zero.  Every use below has a
  non-zero divisor.\<close>

definition js_rem :: "int \<Rightarrow> int \<Rightarrow> int" where
  "js_rem a b = sgn a * (abs a mod abs b)"

text \<open>\<^verbatim>\<open>items[activeIndex]\<close>: \<open>None\<close> is \<^verbatim>\<open>undefined\<close>.\<close>

definition activeItem :: "lightbox \<Rightarrow> GalleryItem option" where
  "activeItem s =
     (if 0 \<le> activeIndex s \<and> activeIndex s < int (length (items s))
      then Some (items s ! nat (activeIndex s)) else None)"

definition activeHref :: "lightbox \<Rightarrow> string option" where
  "activeHref s = map_option href (activeItem s)"

text \<open>The component renders the popup, and with it the image and the three buttons, only
  when it is open and has an active item.\<close>

definition rendered :: "lightbox \<Rightarrow> bool" where
  "rendered s = (isOpen s \<and> activeItem s \<noteq> None)"

definition thumbClick :: "nat \<Rightarrow> 'a event_scheme \<Rightarrow> lightbox \<Rightarrow> 'a event_scheme \<times> lightbox" where
  "thumbClick i ev s =
     (stopPropagation (preventDefault ev),
      s\<lparr>activeIndex := int i, isLoading := True, isOpen := True\<rparr>)"

definition onKeyDown :: "'a keyboardEvent_scheme \<Rightarrow> lightbox \<Rightarrow> 'a keyboardEvent_scheme \<times> lightbox" where
  "onKeyDown ev s =
     (if \<not> isOpen s then (ev, s)
      else if length (items s) = 0 then (ev, s)
      else
        let n = int (length (items s));
            r1 = (if key ev = ''Escape''
                  then (preventDefault ev, s\<lparr>isOpen := False\<rparr>) else (ev, s));
            r2 = (if key ev = ''ArrowRight'' \<or> key ev = '' ''
                  then (preventDefault (fst r1),
                        (snd r1)\<lparr>activeIndex := js_rem (activeIndex (snd r1) + 1) n,
                                 isLoading := True\<rparr>)
                  else r1)
        in if key ev = ''ArrowLeft''
           then (preventDefault (fst r2),
                 (snd r2)\<lparr>activeIndex := js_rem (activeIndex (snd r2) - 1 + n) n,
                          isLoading := True\<rparr>)
           else r2)"

definition closeLightbox :: "lightbox \<Rightarrow> lightbox" where
  "closeLightbox s = s\<lparr>isOpen := False\<rparr>"

definition popupClick :: "bool \<Rightarrow> lightbox \<Rightarrow> lightbox" where
  "popupClick isInteractiveArea s = (if isInteractiveArea then s else s\<lparr>isOpen := False\<rparr>)"

definition closerClick :: "'a event_scheme \<Rightarrow> lightbox \<Rightarrow> 'a event_scheme \<times> lightbox" where
  "closerClick ev s = (stopPropagation ev, s\<lparr>isOpen := False\<rparr>)"

definition navPreviousClick :: "'a event_scheme \<Rightarrow> lightbox \<Rightarrow> 'a event_scheme \<times> lightbox" where
  "navPreviousClick ev s =
     (stopPropagation ev,
      s\<lparr>activeIndex := js_rem (activeIndex s - 1 + int (length (items s))) (int (length (items s))),
        isLoading := True\<rparr>)"

definition navNextClick :: "'a event_scheme \<Rightarrow> lightbox \<Rightarrow> 'a event_scheme \<times> lightbox" where
  "navNextClick ev s =
     (stopPropagation ev,
      s\<lparr>activeIndex := js_rem (activeIndex s + 1) (int (length (items s))),
        isLoading := True\<rparr>)"

definition imgOnLoad :: "lightbox \<Rightarrow> lightbox" where
  "imgOnLoad s = s\<lparr>isLoading := False\<rparr>"

definition imgOnError :: "lightbox \<Rightarrow> lightbox" where
  "imgOnError s = s\<lparr>isLoading := False\<rparr>"

definition handleComplete :: "lightbox \<Rightarrow> lightbox" where
  "handleComplete s = s\<lparr>isLoading := False\<rparr>"

text \<open>
  The preload effect.  React runs it after a render in which \<^verbatim>\<open>[isOpen, activeItem?.href]\<close>
  differs from the pair of its last run; the cleanup of the last run (detaching the handlers
  of the old preview image) comes first.  A link target that is \<^verbatim>\<open>undefined\<close> or empty is
  falsy.  \<open>complete\<close> is what \<^verbatim>\<open>previewImage.complete\<close> answers right after the source
  has been set.
\<close>

definition preloadEffect :: "bool \<Rightarrow> lightbox \<Rightarrow> lightbox" where
  "preloadEffect complete s =
     (if (isOpen s, activeHref s) = preloadDeps s then s
      else
        let s1 = s\<lparr>preloadDeps := (isOpen s, activeHref s), preview := None\<rparr>
        in (case activeHref s1 of
              None \<Rightarrow> s1
            | Some h \<Rightarrow>
                if \<not> isOpen s1 \<or> h = [] then s1
                else
                  let s2 = s1\<lparr>isLoading := True, preview := Some h\<rparr>
                  in if complete then s2\<lparr>isLoading := False\<rparr> else s2))"


subsection \<open>User and browser events on the lightbox\<close>

text \<open>
  An event whose listener does not exist at the moment changes nothing: a thumbnail beyond
  the scanned anchors, a control of a popup that is not rendered, a preview image whose
  handlers have been detached.  \<open>KeyDown\<close> is a keydown that arrives at the listener on
  the window (the popup stops the propagation of key events that start inside it), and
  \<open>PopupClick\<close> tells whether the click hit the image, the caption or a control.
\<close>

datatype lightboxEvent =
    ThumbClick nat
  | KeyDown string
  | BackdropClick
  | PopupClick bool
  | CloserClick
  | NavPrevious
  | NavNext
  | ImgLoad
  | ImgError
  | PreviewLoad
  | PreviewError

fun handle :: "lightboxEvent \<Rightarrow> lightbox \<Rightarrow> lightbox" where
  "handle (ThumbClick i) s = (if i < length (items s) then snd (thumbClick i freshEvent s) else s)"
| "handle (KeyDown k) s = snd (onKeyDown (freshKey k) s)"
| "handle BackdropClick s = (if rendered s then closeLightbox s else s)"
| "handle (PopupClick b) s = (if rendered s then popupClick b s else s)"
| "handle CloserClick s = (if rendered s then snd (closerClick freshEvent s) else s)"
| "handle NavPrevious s = (if rendered s then snd (navPreviousClick freshEvent s) else s)"
| "handle NavNext s = (if rendered s then snd (navNextClick freshEvent s) else s)"
| "handle ImgLoad s = (if rendered s then imgOnLoad s else s)"
| "handle ImgError s = (if rendered s then imgOnError s else s)"
| "handle PreviewLoad s = (if preview s \<noteq> None then handleComplete s else s)"
| "handle PreviewError s = (if preview s \<noteq> None then handleComplete s else s)"

text \<open>One turn of the event loop: the handler, then the render and its preload effect.\<close>

definition step :: "lightboxEvent \<times> bool \<Rightarrow> lightbox \<Rightarrow> lightbox" where
  "step ec s = preloadEffect (snd ec) (handle (fst ec) s)"

definition steps :: "(lightboxEvent \<times> bool) list \<Rightarrow> lightbox \<Rightarrow> lightbox" where
  "steps ecs s = fold step ecs s"

text \<open>The component after mount: the scanned items, closed, nothing loading.\<close>

definition mounted :: "thumbAnchor list \<Rightarrow> lightbox" where
  "mounted anchors =
     (let its = getGalleryItems anchors
      in \<lparr>items = its, isOpen = False, activeIndex = 0, isLoading = False,
          preloadDeps = (False, (case its of [] \<Rightarrow> None | it # _ \<Rightarrow> Some (href it))),
          preview = None\<rparr>)"



text \<open>A loading flag that nothing but the visible image can clear: the lightbox shows an
  item without link target, and no preview image is listening.\<close>

definition awaitingImage :: "lightbox \<Rightarrow> bool" where
  "awaitingImage s =
     (isOpen s \<and> activeHref s = Some [] \<and> isLoading s \<and> preview s = None
      \<and> preloadDeps s = (True, Some []))"

text \<open>The events by which an image, visible or preloaded, reports that it has loaded or
  failed.\<close>

fun loadOrError :: "lightboxEvent \<Rightarrow> bool" where
  "loadOrError ImgLoad = True"
| "loadOrError ImgError = True"
| "loadOrError PreviewLoad = True"
| "loadOrError PreviewError = True"
| "loadOrError _ = False"

text \<open>
  What the preload effect guarantees about its own traces: a preview image has its handlers
  attached only for the non-empty link target of the last run, in an open lightbox.
\<close>

definition coherent :: "lightbox \<Rightarrow> bool" where
  "coherent s =
     (case preview s of None \<Rightarrow> True | Some h \<Rightarrow> h \<noteq> [] \<and> preloadDeps s = (True, Some h))"

text \<open>A sequence of turns without load or error of the visible image, after each of which
  the lightbox is open on an item without link target.\<close>

fun emptyTargetShown :: "(lightboxEvent \<times> bool) list \<Rightarrow> lightbox \<Rightarrow> bool" where
  "emptyTargetShown [] s = True"
| "emptyTargetShown (ec # ecs) s =
     (fst ec \<noteq> ImgLoad \<and> fst ec \<noteq> ImgError
      \<and> isOpen (step ec s) \<and> activeHref (step ec s) = Some []
      \<and> emptyTargetShown ecs (step ec s))"

subsection \<open>A sample gallery\<close>

text \<open>Three thumbnails: one with two captions, one without caption, one without
  \<^verbatim>\<open>href\<close>; the lightbox after a click on the first, and after a click on the third
  whose preview image would be complete at once.\<close>

definition sampleThumbs :: "thumbAnchor list" where
  "sampleThumbs =
     [\<lparr>self = 41, hrefAttribute = Some ''01.jpg'',
       parentChildren = Some [\<lparr>ident = 41, outerHTML = ''<a>1</a>''\<rparr>,
                              \<lparr>ident = 51, outerHTML = ''<h2>One</h2>''\<rparr>,
                              \<lparr>ident = 52, outerHTML = ''<p>First</p>''\<rparr>]\<rparr>,
      \<lparr>self = 42, hrefAttribute = Some ''02.jpg'',
       parentChildren = Some [\<lparr>ident = 42, outerHTML = ''<a>2</a>''\<rparr>]\<rparr>,
      \<lparr>self = 43, hrefAttribute = None,
       parentChildren = Some [\<lparr>ident = 53, outerHTML = ''<h2>Three</h2>''\<rparr>,
                              \<lparr>ident = 43, outerHTML = ''<a>3</a>''\<rparr>]\<rparr>]"


definition openedFirst :: lightbox where
  "openedFirst = step (ThumbClick 0, False) (mounted sampleThumbs)"

definition openedThird :: lightbox where
  "openedThird = step (ThumbClick 2, True) (mounted sampleThumbs)"

section \<open>Class lists after the panel operations\<close>

lemma contains_fold_remove:
  "classList_contains (fold (\<lambda>t. classList_remove t c) ts s) e d
     = (classList_contains s e d \<and> \<not> (d = c \<and> e \<in> set ts))"
  by (induction ts arbitrary: s) (auto simp: classList_remove_def classList_contains_def)

lemma contains_fold_add:
  "classList_contains (fold (\<lambda>t. classList_add t c) ts s) e d
     = (classList_contains s e d \<or> (d = c \<and> e \<in> set ts))"
  by (induction ts arbitrary: s) (auto simp: classList_add_def classList_contains_def)

lemma contains_remove:
  "classList_contains (classList_remove x c s) e d
     = (classList_contains s e d \<and> \<not> (d = c \<and> e = x))"
  by (auto simp: classList_remove_def classList_contains_def)

lemma contains_add:
  "classList_contains (classList_add x c s) e d
     = (classList_contains s e d \<or> (d = c \<and> e = x))"
  by (auto simp: classList_add_def classList_contains_def)

lemma contains_hidePanel:
  "classList_contains (hidePanel body p ts s) e d
     = (classList_contains s e d
        \<and> \<not> (d = ''active'' \<and> (e = p \<or> e \<in> set ts))
        \<and> \<not> (d = ''content-active'' \<and> e = body))"
  unfolding hidePanel_def Let_def contains_remove contains_fold_remove by blast

lemma contains_hideAll:
  "classList_contains (hideAll pm body s) e d
     = (classList_contains s e d
        \<and> \<not> (d = ''active'' \<and> (\<exists>en \<in> set pm. e = panel en \<or> e \<in> set (toggles en)))
        \<and> \<not> (d = ''content-active'' \<and> e = body \<and> pm \<noteq> []))"
  unfolding hideAll_def
proof (induction pm arbitrary: s)
  case Nil
  show ?case by simp
next
  case (Cons en pm)
  show ?case
    unfolding fold_simps Cons.IH contains_hidePanel by auto
qed

lemma contains_showPanel:
  "classList_contains (showPanel pm body p ts s) e d
     = (classList_contains (hideAll pm body s) e d
        \<or> (d = ''active'' \<and> (e = p \<or> e \<in> set ts))
        \<or> (d = ''content-active'' \<and> e = body))"
  unfolding showPanel_def Let_def contains_add contains_fold_add by blast

section \<open>Invariants of the panel state\<close>

lemma activePanels_hideAll: "activePanels pm (hideAll pm body s) = {}"
  unfolding activePanels_def contains_hideAll by blast

lemma activePanels_hidePanel:
  "activePanels pm (hidePanel body p ts s) \<subseteq> activePanels pm s - {p}"
  unfolding activePanels_def contains_hidePanel by blast

lemma activePanels_showPanel:
  assumes "togglesApart pm" "en \<in> set pm"
  shows "activePanels pm (showPanel pm body (panel en) (toggles en) s) = {panel en}"
proof -
  have "\<And>q. q \<in> panel ` set pm \<Longrightarrow> q \<in> set (toggles en) \<Longrightarrow> q = panel en"
    using assms unfolding togglesApart_def by blast
  moreover have "panel en \<in> panel ` set pm"
    using assms(2) by (rule imageI)
  ultimately show ?thesis
    unfolding activePanels_def contains_showPanel contains_hideAll by fastforce
qed

lemma atMostOneActive_subset:
  "activePanels pm s' \<subseteq> activePanels pm s \<Longrightarrow> atMostOneActive pm s \<Longrightarrow> atMostOneActive pm s'"
  unfolding atMostOneActive_def by blast

lemma atMostOneActive_empty: "activePanels pm s = {} \<Longrightarrow> atMostOneActive pm s"
  by (simp add: atMostOneActive_def)

lemma atMostOneActive_single: "activePanels pm s = {p} \<Longrightarrow> atMostOneActive pm s"
  by (simp add: atMostOneActive_def)

lemma atMostOneActive_hidePanel:
  assumes "atMostOneActive pm s"
  shows "atMostOneActive pm (hidePanel body p ts s)"
proof -
  have "activePanels pm (hidePanel body p ts s) \<subseteq> activePanels pm s"
    using activePanels_hidePanel [of pm body p ts s] by blast
  from atMostOneActive_subset [OF this assms] show ?thesis .
qed

lemma atMostOneActive_togglePanel:
  "togglesApart pm \<Longrightarrow> en \<in> set pm \<Longrightarrow> atMostOneActive pm s \<Longrightarrow>
   atMostOneActive pm (togglePanel pm body (panel en) (toggles en) s)"
  using atMostOneActive_single [OF activePanels_showPanel, of pm en body s]
  by (simp add: togglePanel_def atMostOneActive_hidePanel)

lemma atMostOneActive_onBodyClick:
  "atMostOneActive pm s \<Longrightarrow> atMostOneActive pm (snd (onBodyClick pm body ev s))"
  by (simp add: onBodyClick_def atMostOneActive_empty activePanels_hideAll)

lemma atMostOneActive_bubble:
  "atMostOneActive pm (snd r) \<Longrightarrow> atMostOneActive pm (snd (bubbleToBody pm body r))"
  by (simp add: bubbleToBody_def atMostOneActive_onBodyClick)

lemma atMostOneActive_dispatch:
  assumes "togglesApart pm" "atMostOneActive pm s"
  shows "atMostOneActive pm (dispatch pm body e s)"
proof (cases e)
  case (ToggleClick en)
  then show ?thesis using assms
    by (simp add: atMostOneActive_bubble onToggleClick_def atMostOneActive_togglePanel)
next
  case (CloseClick en)
  then show ?thesis using assms
    by (simp add: atMostOneActive_bubble onCloseClick_def panelStopPropagation_def atMostOneActive_hidePanel)
next
  case (PanelClick en)
  then show ?thesis using assms
    by (simp add: atMostOneActive_bubble panelStopPropagation_def)
next
  case OutsideClick
  then show ?thesis using assms by (simp add: atMostOneActive_bubble)
next
  case (KeyUp k)
  then show ?thesis using assms
    by (simp add: onKeyUp_def atMostOneActive_empty activePanels_hideAll)
qed

lemma atMostOneActive_run:
  "togglesApart pm \<Longrightarrow> atMostOneActive pm s \<Longrightarrow> atMostOneActive pm (run pm body s evs)"
  unfolding run_def
  by (induction evs arbitrary: s) (simp_all add: atMostOneActive_dispatch)

lemma no_marker_hidePanel:
  "\<not> classList_contains (hidePanel body p ts s) body ''content-active''"
  unfolding contains_hidePanel by simp

lemma no_marker_hideAll:
  "pm \<noteq> [] \<Longrightarrow> \<not> classList_contains (hideAll pm body s) body ''content-active''"
  unfolding contains_hideAll by simp


lemma panel_active_showPanel:
  "classList_contains (showPanel pm body p ts s) p ''active''"
  unfolding contains_showPanel by simp

lemma activePanels_showPanel_nonempty:
  "en \<in> set pm \<Longrightarrow> activePanels pm (showPanel pm body (panel en) (toggles en) s) \<noteq> {}"
  unfolding activePanels_def using panel_active_showPanel [of pm body "panel en" "toggles en" s]
  by blast

lemma activePanels_Nil: "activePanels [] s = {}"
  by (simp add: activePanels_def)

lemma panelBehindMarker_onBodyClick:
  assumes "panelBehindMarker pm body s"
  shows "panelBehindMarker pm body (snd (onBodyClick pm body ev s))"
proof (cases "classList_contains s body ''content-active''")
  case True
  with assms have "pm \<noteq> []"
    unfolding panelBehindMarker_def using activePanels_Nil by blast
  then show ?thesis
    using True by (simp add: onBodyClick_def panelBehindMarker_def no_marker_hideAll)
next
  case False
  then show ?thesis using assms by (simp add: onBodyClick_def)
qed

lemma panelBehindMarker_bubble:
  "panelBehindMarker pm body (snd r) \<Longrightarrow> panelBehindMarker pm body (snd (bubbleToBody pm body r))"
  by (simp add: bubbleToBody_def panelBehindMarker_onBodyClick)

lemma panelBehindMarker_togglePanel:
  "en \<in> set pm \<Longrightarrow> panelBehindMarker pm body (togglePanel pm body (panel en) (toggles en) s)"
  by (simp add: togglePanel_def panelBehindMarker_def no_marker_hidePanel
      activePanels_showPanel_nonempty)

lemma panelBehindMarker_dispatch:
  assumes "panelBehindMarker pm body s"
  shows "panelBehindMarker pm body (dispatch pm body e s)"
proof (cases e)
  case (ToggleClick en)
  then show ?thesis using assms
    by (simp add: panelBehindMarker_bubble onToggleClick_def panelBehindMarker_togglePanel)
next
  case (CloseClick en)
  then show ?thesis using assms
    by (simp add: panelBehindMarker_bubble onCloseClick_def panelStopPropagation_def
        panelBehindMarker_def [of pm body "hidePanel body (panel en) (toggles en) s"]
        no_marker_hidePanel)
next
  case (PanelClick en)
  then show ?thesis using assms
    by (simp add: panelBehindMarker_bubble panelStopPropagation_def)
next
  case OutsideClick
  then show ?thesis using assms by (simp add: panelBehindMarker_bubble)
next
  case (KeyUp k)
  show ?thesis
  proof (cases "k = ''Escape'' \<and> classList_contains s body ''content-active''")
    case True
    with assms have "pm \<noteq> []"
      unfolding panelBehindMarker_def using activePanels_Nil by blast
    then show ?thesis
      using True KeyUp
      by (simp add: onKeyUp_def freshKey_def panelBehindMarker_def no_marker_hideAll)
  next
    case False
    then show ?thesis using assms KeyUp by (auto simp: onKeyUp_def freshKey_def)
  qed
qed

lemma panelBehindMarker_run:
  "panelBehindMarker pm body s \<Longrightarrow> panelBehindMarker pm body (run pm body s evs)"
  unfolding run_def
  by (induction evs arbitrary: s) (simp_all add: panelBehindMarker_dispatch)



lemma hide_the_active_panel:
  assumes "atMostOneActive pm s" "classList_contains s p ''active''" "p \<in> panel ` set pm"
  shows "activePanels pm (hidePanel body p ts s) = {}"
proof -
  have "p \<in> activePanels pm s" using assms(2,3) by (simp add: activePanels_def)
  with assms(1) have "activePanels pm s \<subseteq> {p}"
    unfolding atMostOneActive_def by blast
  with activePanels_hidePanel [of pm body p ts s] show ?thesis by blast
qed





lemmas overlap_defs = overlapPanels_def overlapFirst_def overlapSecond_def

lemma overlap_first_shown:
  "run overlapPanels sampleBody allClosed [ToggleClick overlapFirst]
     = showPanel overlapPanels sampleBody (panel overlapFirst) (toggles overlapFirst) allClosed"
proof -
  have "\<not> classList_contains allClosed (panel overlapFirst) ''active''"
    by (simp add: classList_contains_def allClosed_def)
  moreover have "overlapFirst \<in> set overlapPanels" "toggles overlapFirst \<noteq> []"
    by (simp_all add: overlap_defs)
  ultimately show ?thesis
    by (simp add: run_def bubbleToBody_def onToggleClick_def togglePanel_def
        stopPropagation_def preventDefault_def freshEvent_def)
qed

lemma overlap_both_active:
  "classList_contains (run overlapPanels sampleBody allClosed [ToggleClick overlapFirst]) 11 ''active''"
  "classList_contains (run overlapPanels sampleBody allClosed [ToggleClick overlapFirst]) 12 ''active''"
  unfolding overlap_first_shown contains_showPanel
  by (simp_all add: overlap_defs)

section \<open>Claims about the panels\<close>

lemmas sample_defs =
  samplePanels_def aboutEntry_def contactEntry_def sampleBody_def allClosed_def aboutOpen_def

text \<open>
  C2, on a page that keeps panels and toggles apart (\<open>togglesApart\<close>: no toggle of an
  entry is the panel of another entry).  \<^verbatim>\<open>showPanel\<close> is: hide every entry of
  \<^verbatim>\<open>panelMap\<close>, then mark the panel, its toggles and the body.  After the first stage no
  panel is active, whatever the state before; after the second exactly the shown panel is.
  Every sequence of user events keeps "at most one active panel".
\<close>

theorem at_most_one_panel_active:
  assumes "togglesApart pm"
  shows "(\<forall>p ts s. showPanel pm body p ts s =
            classList_add body ''content-active''
              (fold (\<lambda>toggle. classList_add toggle ''active'') ts
                 (classList_add p ''active'' (hideAll pm body s))))
       \<and> (\<forall>s. activePanels pm (hideAll pm body s) = {})
       \<and> (\<forall>en \<in> set pm. \<forall>s.
             activePanels pm (showPanel pm body (panel en) (toggles en) s) = {panel en})
       \<and> (\<forall>s evs. atMostOneActive pm s \<longrightarrow> atMostOneActive pm (run pm body s evs))"
proof (intro conjI allI ballI impI)
  fix p ts s
  show "showPanel pm body p ts s =
          classList_add body ''content-active''
            (fold (\<lambda>toggle. classList_add toggle ''active'') ts
               (classList_add p ''active'' (hideAll pm body s)))"
    by (simp add: showPanel_def)
next
  fix s
  show "activePanels pm (hideAll pm body s) = {}"
    by (rule activePanels_hideAll)
next
  fix en s
  assume "en \<in> set pm"
  with assms show "activePanels pm (showPanel pm body (panel en) (toggles en) s) = {panel en}"
    by (rule activePanels_showPanel)
next
  fix s evs
  assume "atMostOneActive pm s"
  with assms show "atMostOneActive pm (run pm body s evs)"
    by (rule atMostOneActive_run)
qed

theorem at_most_one_panel_active_witness:
  "togglesApart samplePanels
   \<and> atMostOneActive samplePanels aboutOpen
   \<and> activePanels samplePanels aboutOpen = {panel aboutEntry}
   \<and> activePanels samplePanels
        (showPanel samplePanels sampleBody (panel contactEntry) (toggles contactEntry) aboutOpen)
       = {panel contactEntry}
   \<and> atMostOneActive samplePanels
        (run samplePanels sampleBody aboutOpen [ToggleClick contactEntry, OutsideClick])"
proof -
  have t: "togglesApart samplePanels"
    by (simp add: togglesApart_def sample_defs)
  have act: "activePanels samplePanels aboutOpen = {panel aboutEntry}"
    by (auto simp: activePanels_def classList_contains_def sample_defs)
  then have one: "atMostOneActive samplePanels aboutOpen"
    by (simp add: atMostOneActive_def)
  have mem: "contactEntry \<in> set samplePanels"
    by (simp add: samplePanels_def)
  note inst = at_most_one_panel_active [OF t, of sampleBody]
  have sh: "activePanels samplePanels
        (showPanel samplePanels sampleBody (panel contactEntry) (toggles contactEntry) aboutOpen)
       = {panel contactEntry}"
    using inst mem by blast
  have inv: "atMostOneActive samplePanels
        (run samplePanels sampleBody aboutOpen [ToggleClick contactEntry, OutsideClick])"
    using inst one by blast
  from t one act sh inv show ?thesis by blast
qed

text \<open>
  C2, as stated, speaks of every page.  On a page whose second panel is also the toggle of
  the first, nothing is active at the start, and one click on that toggle leaves both
  panels active: \<^verbatim>\<open>showPanel\<close> marks the toggles after it has hidden the entries.
\<close>

theorem two_panels_active_at_once:
  "atMostOneActive overlapPanels allClosed
   \<and> \<not> atMostOneActive overlapPanels
         (run overlapPanels sampleBody allClosed [ToggleClick overlapFirst])"
proof -
  let ?s = "run overlapPanels sampleBody allClosed [ToggleClick overlapFirst]"
  have "activePanels overlapPanels allClosed = {}"
    by (simp add: activePanels_def classList_contains_def allClosed_def)
  then have a: "atMostOneActive overlapPanels allClosed"
    by (rule atMostOneActive_empty)
  have "11 \<in> activePanels overlapPanels ?s" "12 \<in> activePanels overlapPanels ?s"
    using overlap_both_active by (simp_all add: activePanels_def overlap_defs)
  moreover have "(11::nat) \<noteq> 12" by simp
  ultimately have b: "\<not> atMostOneActive overlapPanels ?s"
    unfolding atMostOneActive_def by blast
  from a b show ?thesis by (rule conjI)
qed



text \<open>
  C8.  A click that reaches the body listener while the body lacks \<^verbatim>\<open>content-active\<close>
  changes nothing: the event comes back with both flags untouched and the class lists are
  the same.  In every state the user events lead to, from a start in which the marker is
  not set without an active panel, "no panel is active" implies that the marker is absent,
  hence the same no-op.
\<close>

theorem outside_click_without_active_panel:
  "(\<not> classList_contains s body ''content-active'' \<longrightarrow> onBodyClick pm body ev s = (ev, s))
   \<and> (panelBehindMarker pm body s0 \<and> activePanels pm (run pm body s0 evs) = {} \<longrightarrow>
        onBodyClick pm body ev (run pm body s0 evs) = (ev, run pm body s0 evs))"
proof (intro conjI impI)
  assume "\<not> classList_contains s body ''content-active''"
  then show "onBodyClick pm body ev s = (ev, s)"
    by (simp add: onBodyClick_def)
next
  assume a: "panelBehindMarker pm body s0 \<and> activePanels pm (run pm body s0 evs) = {}"
  then have "panelBehindMarker pm body (run pm body s0 evs)"
    by (simp add: panelBehindMarker_run)
  with a have "\<not> classList_contains (run pm body s0 evs) body ''content-active''"
    unfolding panelBehindMarker_def by blast
  then show "onBodyClick pm body ev (run pm body s0 evs) = (ev, run pm body s0 evs)"
    by (simp add: onBodyClick_def)
qed

theorem outside_click_without_active_panel_witness:
  "\<not> classList_contains allClosed sampleBody ''content-active''
   \<and> onBodyClick samplePanels sampleBody freshEvent allClosed = (freshEvent, allClosed)
   \<and> panelBehindMarker samplePanels sampleBody allClosed
   \<and> activePanels samplePanels
        (run samplePanels sampleBody allClosed [ToggleClick aboutEntry, ToggleClick aboutEntry]) = {}
   \<and> onBodyClick samplePanels sampleBody freshEvent
        (run samplePanels sampleBody allClosed [ToggleClick aboutEntry, ToggleClick aboutEntry])
      = (freshEvent,
         run samplePanels sampleBody allClosed [ToggleClick aboutEntry, ToggleClick aboutEntry])"
proof -
  let ?evs = "[ToggleClick aboutEntry, ToggleClick aboutEntry]"
  have nm: "\<not> classList_contains allClosed sampleBody ''content-active''"
    by (simp add: classList_contains_def allClosed_def)
  have off: "\<not> classList_contains allClosed (panel aboutEntry) ''active''"
    by (simp add: classList_contains_def allClosed_def)
  have pb: "panelBehindMarker samplePanels sampleBody allClosed"
    using nm by (simp add: panelBehindMarker_def)
  have mem: "aboutEntry \<in> set samplePanels" "toggles aboutEntry \<noteq> []"
    by (simp_all add: samplePanels_def aboutEntry_def)
  have r: "run samplePanels sampleBody allClosed ?evs
         = hidePanel sampleBody (panel aboutEntry) (toggles aboutEntry)
             (showPanel samplePanels sampleBody (panel aboutEntry) (toggles aboutEntry) allClosed)"
    using off mem
    by (simp add: run_def bubbleToBody_def onToggleClick_def togglePanel_def
        stopPropagation_def preventDefault_def freshEvent_def panel_active_showPanel)
  have one: "atMostOneActive samplePanels
      (showPanel samplePanels sampleBody (panel aboutEntry) (toggles aboutEntry) allClosed)"
    by (rule atMostOneActive_single [OF activePanels_showPanel])
       (simp_all add: togglesApart_def sample_defs)
  have none: "activePanels samplePanels (run samplePanels sampleBody allClosed ?evs) = {}"
    unfolding r using one mem(1)
    by (intro hide_the_active_panel) (simp_all add: panel_active_showPanel)
  from outside_click_without_active_panel
         [of allClosed sampleBody samplePanels freshEvent allClosed ?evs] nm pb none
  show ?thesis by simp
qed

section \<open>The lightbox handlers and the preload effect\<close>

lemma js_rem_nonneg: "0 \<le> a \<Longrightarrow> 0 < b \<Longrightarrow> js_rem a b = a mod b"
  by (simp add: js_rem_def sgn_if)


lemma preloadEffect_keeps [simp]:
  "items (preloadEffect c s) = items s"
  "isOpen (preloadEffect c s) = isOpen s"
  "activeIndex (preloadEffect c s) = activeIndex s"
  by (simp_all add: preloadEffect_def Let_def activeHref_def activeItem_def split: option.splits)

lemma onKeyDown_ArrowRight:
  assumes "isOpen s" "items s \<noteq> []" "key ev = ''ArrowRight'' \<or> key ev = '' ''"
  shows "onKeyDown ev s =
           (preventDefault ev,
            s\<lparr>activeIndex := js_rem (activeIndex s + 1) (int (length (items s))),
              isLoading := True\<rparr>)"
  using assms by (auto simp: onKeyDown_def Let_def)

lemma onKeyDown_ArrowLeft:
  assumes "isOpen s" "items s \<noteq> []" "key ev = ''ArrowLeft''"
  shows "onKeyDown ev s =
           (preventDefault ev,
            s\<lparr>activeIndex := js_rem (activeIndex s - 1 + int (length (items s))) (int (length (items s))),
              isLoading := True\<rparr>)"
  using assms by (auto simp: onKeyDown_def Let_def)


lemma rendered_in_range:
  "isOpen s \<Longrightarrow> 0 \<le> activeIndex s \<Longrightarrow> activeIndex s < int (length (items s)) \<Longrightarrow> rendered s"
  by (simp add: rendered_def activeItem_def)

lemma next_index:
  "0 \<le> i \<Longrightarrow> xs \<noteq> [] \<Longrightarrow> js_rem (i + 1) (int (length xs)) = (i + 1) mod int (length xs)"
  by (simp add: js_rem_nonneg)

lemma previous_index:
  "0 \<le> i \<Longrightarrow> xs \<noteq> [] \<Longrightarrow>
   js_rem (i - 1 + int (length xs)) (int (length xs)) = (i - 1 + int (length xs)) mod int (length xs)"
  by (rule js_rem_nonneg) (cases xs; simp)+

lemma handle_keeps_preload [simp]:
  "preloadDeps (handle e s) = preloadDeps s" "preview (handle e s) = preview s"
  "items (handle e s) = items s"
  by (cases e; simp add: thumbClick_def onKeyDown_def Let_def closeLightbox_def popupClick_def
      closerClick_def navPreviousClick_def navNextClick_def imgOnLoad_def imgOnError_def
      handleComplete_def)+

lemma handle_clears_only_on_signal:
  "isLoading s \<Longrightarrow> \<not> isLoading (handle e s) \<Longrightarrow> loadOrError e"
  by (cases e; simp add: thumbClick_def onKeyDown_def Let_def closeLightbox_def popupClick_def
      closerClick_def navPreviousClick_def navNextClick_def split: if_splits)

lemma preloadEffect_clears:
  "isLoading s \<Longrightarrow> \<not> isLoading (preloadEffect c s) \<Longrightarrow>
     c \<and> isOpen s \<and> (isOpen s, activeHref s) \<noteq> preloadDeps s
       \<and> activeHref s \<noteq> None \<and> activeHref s \<noteq> Some []"
  by (auto simp: preloadEffect_def Let_def activeHref_def activeItem_def
      split: if_splits option.splits)

lemma preloadEffect_rerun:
  "isOpen s \<Longrightarrow> (isOpen s, activeHref s) \<noteq> preloadDeps s \<Longrightarrow>
   activeHref s = Some h \<Longrightarrow> h \<noteq> [] \<Longrightarrow>
   preloadEffect c s = s\<lparr>preloadDeps := (True, Some h), preview := Some h, isLoading := \<not> c\<rparr>"
  by (auto simp: preloadEffect_def Let_def activeHref_def activeItem_def
      split: if_splits option.splits)

lemma coherent_mounted: "coherent (mounted anchors)"
  by (simp add: coherent_def mounted_def Let_def)

lemma coherent_preloadEffect: "coherent s \<Longrightarrow> coherent (preloadEffect c s)"
  by (auto simp: coherent_def preloadEffect_def Let_def activeHref_def activeItem_def
      split: option.splits)

lemma coherent_step: "coherent s \<Longrightarrow> coherent (step ec s)"
  unfolding step_def
  by (rule coherent_preloadEffect) (simp add: coherent_def split: option.splits)

lemma preloadEffect_empty_target:
  assumes "activeHref s = Some []"
  shows "isLoading (preloadEffect c s) = isLoading s"
    and "coherent s \<Longrightarrow> preview (preloadEffect c s) = None"
    and "preloadDeps (preloadEffect c s) = (isOpen s, Some [])"
  using assms
  by (auto simp: preloadEffect_def Let_def coherent_def activeHref_def activeItem_def
      split: option.splits)

lemma activeHref_preloadEffect [simp]: "activeHref (preloadEffect c s) = activeHref s"
  by (simp add: activeHref_def activeItem_def)

lemma awaitingImage_open:
  assumes "coherent s" "i < length (items s)" "href (items s ! i) = []"
  shows "awaitingImage (step (ThumbClick i, c) s)"
proof -
  let ?h = "handle (ThumbClick i) s"
  have h: "isOpen ?h" "isLoading ?h" "activeHref ?h = Some []" "coherent ?h"
    using assms
    by (simp_all add: thumbClick_def activeHref_def activeItem_def coherent_def
        split: option.splits)
  show ?thesis
    unfolding awaitingImage_def step_def
    using h preloadEffect_empty_target [OF h(3), of c] by simp
qed

lemma awaitingImage_step:
  assumes "awaitingImage s" "fst ec \<noteq> ImgLoad" "fst ec \<noteq> ImgError"
    and "isOpen (step ec s)" "activeHref (step ec s) = Some []"
  shows "awaitingImage (step ec s)"
proof -
  let ?h = "handle (fst ec) s"
  have l: "isLoading ?h"
  proof (rule ccontr)
    assume "\<not> isLoading ?h"
    moreover have "isLoading s" using assms(1) by (simp add: awaitingImage_def)
    ultimately have "loadOrError (fst ec)"
      using handle_clears_only_on_signal by blast
    then show False
      using assms(1,2,3) \<open>\<not> isLoading ?h\<close>
      by (cases "fst ec") (simp_all add: awaitingImage_def)
  qed
  have p: "preview ?h = None" "preloadDeps ?h = (True, Some [])"
    using assms(1) by (simp_all add: awaitingImage_def)
  have o: "isOpen ?h" "activeHref ?h = Some []"
    using assms(4,5) by (simp_all add: step_def)
  have "preloadEffect (snd ec) ?h = ?h"
    using o p by (simp add: preloadEffect_def)
  then show ?thesis
    using l p o by (simp add: step_def awaitingImage_def)
qed

lemma awaitingImage_steps:
  "awaitingImage s \<Longrightarrow> emptyTargetShown ecs s \<Longrightarrow> awaitingImage (steps ecs s)"
  unfolding steps_def
  by (induction ecs arbitrary: s) (simp_all add: awaitingImage_step)

lemma awaitingImage_rendered: "awaitingImage s \<Longrightarrow> rendered s"
  by (auto simp: awaitingImage_def rendered_def activeHref_def)

lemma activeHref_isLoading_update [simp]:
  "activeHref (s\<lparr>isLoading := b\<rparr>) = activeHref s"
  by (simp add: activeHref_def activeItem_def)

lemma awaitingImage_image_event:
  assumes "awaitingImage s"
  shows "\<not> isLoading (step (ImgLoad, c) s)" "\<not> isLoading (step (ImgError, c) s)"
proof -
  have r: "rendered s" using assms by (rule awaitingImage_rendered)
  have d: "activeHref s = Some []" using assms by (simp add: awaitingImage_def)
  have "activeHref (imgOnLoad s) = Some []" "activeHref (imgOnError s) = Some []"
    using d by (simp_all add: imgOnLoad_def imgOnError_def)
  then show "\<not> isLoading (step (ImgLoad, c) s)" "\<not> isLoading (step (ImgError, c) s)"
    using r by (simp_all add: step_def preloadEffect_empty_target(1) imgOnLoad_def imgOnError_def)
qed

lemma href_without_attribute:
  "i < length anchors \<Longrightarrow> hrefAttribute (anchors ! i) = None \<Longrightarrow>
   href (getGalleryItems anchors ! i) = []"
  by (simp add: getGalleryItems_def Let_def)

section \<open>The sample gallery, evaluated\<close>

lemma sample_gallery:
  "getGalleryItems sampleThumbs =
     [\<lparr>href = ''01.jpg'', caption = Some ''<h2>One</h2><p>First</p>''\<rparr>,
      \<lparr>href = ''02.jpg'', caption = None\<rparr>,
      \<lparr>href = [], caption = Some ''<h2>Three</h2>''\<rparr>]"
  by code_simp

lemma sample_mounted:
  "mounted sampleThumbs =
     \<lparr>items = [\<lparr>href = ''01.jpg'', caption = Some ''<h2>One</h2><p>First</p>''\<rparr>,
               \<lparr>href = ''02.jpg'', caption = None\<rparr>,
               \<lparr>href = [], caption = Some ''<h2>Three</h2>''\<rparr>],
      isOpen = False, activeIndex = 0, isLoading = False,
      preloadDeps = (False, Some ''01.jpg''), preview = None\<rparr>"
  by (simp add: mounted_def sample_gallery)

lemma sample_opened:
  "openedFirst =
     \<lparr>items = [\<lparr>href = ''01.jpg'', caption = Some ''<h2>One</h2><p>First</p>''\<rparr>,
               \<lparr>href = ''02.jpg'', caption = None\<rparr>,
               \<lparr>href = [], caption = Some ''<h2>Three</h2>''\<rparr>],
      isOpen = True, activeIndex = 0, isLoading = True,
      preloadDeps = (True, Some ''01.jpg''), preview = Some ''01.jpg''\<rparr>"
  by (simp add: openedFirst_def sample_mounted step_def thumbClick_def preloadEffect_def
      activeHref_def activeItem_def)

lemma openedFirst_facts:
  "isOpen openedFirst" "activeIndex openedFirst = 0" "length (items openedFirst) = 3"
  "items openedFirst \<noteq> []" "isLoading openedFirst" "preview openedFirst = Some ''01.jpg''"
  by (simp_all add: sample_opened)

lemma sample_clicked:
  "handle (ThumbClick 0) (mounted sampleThumbs) =
     \<lparr>items = [\<lparr>href = ''01.jpg'', caption = Some ''<h2>One</h2><p>First</p>''\<rparr>,
               \<lparr>href = ''02.jpg'', caption = None\<rparr>,
               \<lparr>href = [], caption = Some ''<h2>Three</h2>''\<rparr>],
      isOpen = True, activeIndex = 0, isLoading = True,
      preloadDeps = (False, Some ''01.jpg''), preview = None\<rparr>"
  by (simp add: sample_mounted thumbClick_def)

lemma sample_clicked_facts:
  "isOpen (handle (ThumbClick 0) (mounted sampleThumbs))"
  "activeHref (handle (ThumbClick 0) (mounted sampleThumbs)) = Some ''01.jpg''"
  "preloadDeps (handle (ThumbClick 0) (mounted sampleThumbs)) = (False, Some ''01.jpg'')"
  unfolding sample_clicked by (simp_all add: activeHref_def activeItem_def)

lemma sample_third:
  "openedThird =
     \<lparr>items = [\<lparr>href = ''01.jpg'', caption = Some ''<h2>One</h2><p>First</p>''\<rparr>,
               \<lparr>href = ''02.jpg'', caption = None\<rparr>,
               \<lparr>href = [], caption = Some ''<h2>Three</h2>''\<rparr>],
      isOpen = True, activeIndex = 2, isLoading = True,
      preloadDeps = (True, Some []), preview = None\<rparr>"
  by (simp add: openedThird_def sample_mounted step_def thumbClick_def preloadEffect_def
      activeHref_def activeItem_def)

lemma sample_third_turns:
  "step (PopupClick True, True) openedThird = openedThird"
  "step (KeyDown ''Enter'', True) openedThird = openedThird"
  "step (ThumbClick 2, True) openedThird = openedThird"
  unfolding sample_third
  by (simp_all add: step_def popupClick_def rendered_def onKeyDown_def freshKey_def
      thumbClick_def preloadEffect_def activeHref_def activeItem_def)

lemma sample_third_awaiting: "awaitingImage openedThird"
  unfolding sample_third by (simp add: awaitingImage_def activeHref_def activeItem_def)

lemma sample_third_shown:
  "emptyTargetShown [(PopupClick True, True), (KeyDown ''Enter'', True), (ThumbClick 2, True)]
     openedThird"
  using sample_third_awaiting
  by (simp add: sample_third_turns awaitingImage_def)

section \<open>Claims about the lightbox\<close>

text \<open>
  C1.  With \<open>N \<ge> 1\<close> items and the index \<open>i\<close> in range while the lightbox is open, "next"
  (the key \<^verbatim>\<open>ArrowRight\<close> or the next control) sets the index to \<open>(i + 1) mod N\<close> and
  "previous" (\<^verbatim>\<open>ArrowLeft\<close> or the previous control) to \<open>(i - 1 + N) mod N\<close>, for the
  handlers and for the whole turn of the event loop.  With three items, opening item 0 and
  pressing \<^verbatim>\<open>ArrowRight\<close> twice gives the indices 0, 1, 2.
\<close>

theorem navigation_wraps_around:
  assumes "isOpen s" "items s \<noteq> []" "0 \<le> activeIndex s" "activeIndex s < int (length (items s))"
  shows "(key ev = ''ArrowRight'' \<longrightarrow>
            activeIndex (snd (onKeyDown ev s)) = (activeIndex s + 1) mod int (length (items s)))
       \<and> (key ev = ''ArrowLeft'' \<longrightarrow>
            activeIndex (snd (onKeyDown ev s))
              = (activeIndex s - 1 + int (length (items s))) mod int (length (items s)))
       \<and> activeIndex (snd (navNextClick cev s)) = (activeIndex s + 1) mod int (length (items s))
       \<and> activeIndex (snd (navPreviousClick cev s))
              = (activeIndex s - 1 + int (length (items s))) mod int (length (items s))
       \<and> activeIndex (step (KeyDown ''ArrowRight'', c) s) = (activeIndex s + 1) mod int (length (items s))
       \<and> activeIndex (step (NavNext, c) s) = (activeIndex s + 1) mod int (length (items s))
       \<and> activeIndex (step (KeyDown ''ArrowLeft'', c) s)
              = (activeIndex s - 1 + int (length (items s))) mod int (length (items s))
       \<and> activeIndex (step (NavPrevious, c) s)
              = (activeIndex s - 1 + int (length (items s))) mod int (length (items s))
       \<and> (length (items t) = 3 \<longrightarrow>
            map activeIndex
              [step (ThumbClick 0, c0) t,
               steps [(ThumbClick 0, c0), (KeyDown ''ArrowRight'', c1)] t,
               steps [(ThumbClick 0, c0), (KeyDown ''ArrowRight'', c1), (KeyDown ''ArrowRight'', c2)] t]
            = [0, 1, 2])"
proof -
  let ?n = "int (length (items s))"
  have r: "rendered s" using assms by (simp add: rendered_in_range)
  have nx: "js_rem (activeIndex s + 1) ?n = (activeIndex s + 1) mod ?n"
    using assms by (simp add: next_index)
  have pv: "js_rem (activeIndex s - 1 + ?n) ?n = (activeIndex s - 1 + ?n) mod ?n"
    using assms by (simp add: previous_index)
  have 1: "key ev = ''ArrowRight'' \<longrightarrow> activeIndex (snd (onKeyDown ev s)) = (activeIndex s + 1) mod ?n"
    using assms nx by (simp add: onKeyDown_ArrowRight)
  have 2: "key ev = ''ArrowLeft'' \<longrightarrow> activeIndex (snd (onKeyDown ev s)) = (activeIndex s - 1 + ?n) mod ?n"
    using assms pv by (simp add: onKeyDown_ArrowLeft)
  have 3: "activeIndex (snd (navNextClick cev s)) = (activeIndex s + 1) mod ?n"
    using nx by (simp add: navNextClick_def)
  have 4: "activeIndex (snd (navPreviousClick cev s)) = (activeIndex s - 1 + ?n) mod ?n"
    using pv by (simp add: navPreviousClick_def)
  have 5: "activeIndex (step (KeyDown ''ArrowRight'', c) s) = (activeIndex s + 1) mod ?n"
    using assms nx by (simp add: step_def onKeyDown_ArrowRight freshKey_def)
  have 6: "activeIndex (step (NavNext, c) s) = (activeIndex s + 1) mod ?n"
    using r nx by (simp add: step_def navNextClick_def)
  have 7: "activeIndex (step (KeyDown ''ArrowLeft'', c) s) = (activeIndex s - 1 + ?n) mod ?n"
    using assms pv by (simp add: step_def onKeyDown_ArrowLeft freshKey_def)
  have 8: "activeIndex (step (NavPrevious, c) s) = (activeIndex s - 1 + ?n) mod ?n"
    using r pv by (simp add: step_def navPreviousClick_def)
  have 9: "length (items t) = 3 \<longrightarrow>
            map activeIndex
              [step (ThumbClick 0, c0) t,
               steps [(ThumbClick 0, c0), (KeyDown ''ArrowRight'', c1)] t,
               steps [(ThumbClick 0, c0), (KeyDown ''ArrowRight'', c1), (KeyDown ''ArrowRight'', c2)] t]
            = [0, 1, 2]"
  proof
    assume n3: "length (items t) = 3"
    let ?s0 = "step (ThumbClick 0, c0) t"
    let ?s1 = "step (KeyDown ''ArrowRight'', c1) ?s0"
    let ?s2 = "step (KeyDown ''ArrowRight'', c2) ?s1"
    have a0: "activeIndex ?s0 = 0" "isOpen ?s0" "items ?s0 = items t"
      using n3 by (simp_all add: step_def thumbClick_def)
    have ne0: "items ?s0 \<noteq> []" using a0(3) n3 by auto
    have a1: "activeIndex ?s1 = 1" "isOpen ?s1" "items ?s1 = items t"
      using a0 n3 ne0
      by (simp_all add: step_def [of _ ?s0] onKeyDown_ArrowRight freshKey_def js_rem_nonneg)
    have ne1: "items ?s1 \<noteq> []" using a1(3) n3 by auto
    have a2: "activeIndex ?s2 = 2"
      using a1 n3 ne1
      by (simp add: step_def [of _ ?s1] onKeyDown_ArrowRight freshKey_def js_rem_nonneg)
    show "map activeIndex
              [step (ThumbClick 0, c0) t,
               steps [(ThumbClick 0, c0), (KeyDown ''ArrowRight'', c1)] t,
               steps [(ThumbClick 0, c0), (KeyDown ''ArrowRight'', c1), (KeyDown ''ArrowRight'', c2)] t]
            = [0, 1, 2]"
      using a0(1) a1(1) a2 by (simp add: steps_def)
  qed
  from 1 2 3 4 5 6 7 8 9 show ?thesis by blast
qed

theorem navigation_wraps_around_witness:
  "isOpen openedFirst \<and> items openedFirst \<noteq> [] \<and> 0 \<le> activeIndex openedFirst
   \<and> activeIndex openedFirst < int (length (items openedFirst))
   \<and> key (freshKey ''ArrowLeft'') = ''ArrowLeft''
   \<and> activeIndex (snd (onKeyDown (freshKey ''ArrowLeft'') openedFirst)) = 2
   \<and> activeIndex (step (NavNext, False) openedFirst) = 1
   \<and> length (items (mounted sampleThumbs)) = 3
   \<and> map activeIndex
        [step (ThumbClick 0, False) (mounted sampleThumbs),
         steps [(ThumbClick 0, False), (KeyDown ''ArrowRight'', False)] (mounted sampleThumbs),
         steps [(ThumbClick 0, False), (KeyDown ''ArrowRight'', False), (KeyDown ''ArrowRight'', True)]
           (mounted sampleThumbs)]
      = [0, 1, 2]"
proof -
  have pre: "isOpen openedFirst" "items openedFirst \<noteq> []" "0 \<le> activeIndex openedFirst"
    "activeIndex openedFirst < int (length (items openedFirst))"
    by (simp_all add: openedFirst_facts)
  have k: "key (freshKey ''ArrowLeft'') = ''ArrowLeft''"
    by (simp add: freshKey_def)
  have n: "length (items (mounted sampleThumbs)) = 3"
    by (simp add: sample_mounted)
  note inst = navigation_wraps_around [OF pre,
      where ev = "freshKey ''ArrowLeft''" and cev = freshEvent and c = False
        and t = "mounted sampleThumbs"
        and ?c0.0 = False and ?c1.0 = False and ?c2.0 = True]
  have a: "activeIndex (snd (onKeyDown (freshKey ''ArrowLeft'') openedFirst)) = 2"
    using inst k by (simp add: openedFirst_facts)
  have b: "activeIndex (step (NavNext, False) openedFirst) = 1"
    using inst by (simp add: openedFirst_facts)
  have c: "map activeIndex
        [step (ThumbClick 0, False) (mounted sampleThumbs),
         steps [(ThumbClick 0, False), (KeyDown ''ArrowRight'', False)] (mounted sampleThumbs),
         steps [(ThumbClick 0, False), (KeyDown ''ArrowRight'', False), (KeyDown ''ArrowRight'', True)]
           (mounted sampleThumbs)]
      = [0, 1, 2]"
    using inst n by blast
  from pre k n a b c show ?thesis by blast
qed

text \<open>
  C9.  While the lightbox is open with a non-empty item list, the key \<^verbatim>\<open>" "\<close> does what
  \<^verbatim>\<open>ArrowRight\<close> does: the same next state, the same event apart from its key, the default
  action prevented, the loading flag set and the index advanced to \<open>(i + 1) mod N\<close>.
\<close>

theorem space_key_is_arrow_right:
  assumes "isOpen s" "items s \<noteq> []"
  shows "snd (onKeyDown (ev\<lparr>key := '' ''\<rparr>) s) = snd (onKeyDown (ev\<lparr>key := ''ArrowRight''\<rparr>) s)
       \<and> fst (onKeyDown (ev\<lparr>key := '' ''\<rparr>) s) = (fst (onKeyDown (ev\<lparr>key := ''ArrowRight''\<rparr>) s))\<lparr>key := '' ''\<rparr>
       \<and> defaultPrevented (fst (onKeyDown (ev\<lparr>key := '' ''\<rparr>) s))
       \<and> isLoading (snd (onKeyDown (ev\<lparr>key := '' ''\<rparr>) s))
       \<and> (0 \<le> activeIndex s \<longrightarrow>
            activeIndex (snd (onKeyDown (ev\<lparr>key := '' ''\<rparr>) s))
              = (activeIndex s + 1) mod int (length (items s)))
       \<and> step (KeyDown '' '', c) s = step (KeyDown ''ArrowRight'', c) s"
proof -
  have sp: "onKeyDown (ev\<lparr>key := '' ''\<rparr>) s =
           (preventDefault (ev\<lparr>key := '' ''\<rparr>),
            s\<lparr>activeIndex := js_rem (activeIndex s + 1) (int (length (items s))), isLoading := True\<rparr>)"
    using assms by (simp add: onKeyDown_ArrowRight)
  have ar: "onKeyDown (ev\<lparr>key := ''ArrowRight''\<rparr>) s =
           (preventDefault (ev\<lparr>key := ''ArrowRight''\<rparr>),
            s\<lparr>activeIndex := js_rem (activeIndex s + 1) (int (length (items s))), isLoading := True\<rparr>)"
    using assms by (simp add: onKeyDown_ArrowRight)
  have ix: "0 \<le> activeIndex s \<longrightarrow>
      js_rem (activeIndex s + 1) (int (length (items s))) = (activeIndex s + 1) mod int (length (items s))"
    using assms(2) by (simp add: next_index)
  have st: "step (KeyDown '' '', c) s = step (KeyDown ''ArrowRight'', c) s"
    using assms by (simp add: step_def onKeyDown_ArrowRight freshKey_def)
  show ?thesis
    unfolding sp ar using ix st by (simp add: preventDefault_def)
qed

theorem space_key_is_arrow_right_witness:
  "isOpen openedFirst \<and> items openedFirst \<noteq> [] \<and> 0 \<le> activeIndex openedFirst
   \<and> snd (onKeyDown ((freshKey [])\<lparr>key := '' ''\<rparr>) openedFirst)
       = snd (onKeyDown ((freshKey [])\<lparr>key := ''ArrowRight''\<rparr>) openedFirst)
   \<and> defaultPrevented (fst (onKeyDown ((freshKey [])\<lparr>key := '' ''\<rparr>) openedFirst))
   \<and> isLoading (snd (onKeyDown ((freshKey [])\<lparr>key := '' ''\<rparr>) openedFirst))
   \<and> activeIndex (snd (onKeyDown ((freshKey [])\<lparr>key := '' ''\<rparr>) openedFirst)) = 1"
proof -
  have pre: "isOpen openedFirst" "items openedFirst \<noteq> []"
    by (simp_all add: openedFirst_facts)
  have z: "0 \<le> activeIndex openedFirst"
    by (simp add: openedFirst_facts)
  note inst = space_key_is_arrow_right [OF pre, where ev = "freshKey []" and c = False]
  from inst z
  have "activeIndex (snd (onKeyDown ((freshKey [])\<lparr>key := '' ''\<rparr>) openedFirst))
          = (activeIndex openedFirst + 1) mod int (length (items openedFirst))"
    by blast
  then have i: "activeIndex (snd (onKeyDown ((freshKey [])\<lparr>key := '' ''\<rparr>) openedFirst)) = 1"
    by (simp add: openedFirst_facts)
  from pre z inst i show ?thesis by blast
qed

text \<open>
  C3, as the code has it.  A click on a thumbnail sets the loading flag (and opens the
  lightbox on the clicked index).  Among the events, only load and error of the visible or
  of the preloaded image clear the flag, and error is handled exactly like load.  The
  preload effect clears it as well: when it runs anew for an open lightbox with a non-empty
  link target and the fresh preview image already answers \<^verbatim>\<open>complete\<close>, the flag is false
  after the effect; in no other case does the effect clear it.
\<close>

theorem loading_flag_set_and_cleared:
  "(i < length (items s) \<longrightarrow>
      isLoading (handle (ThumbClick i) s) \<and> isOpen (handle (ThumbClick i) s)
      \<and> activeIndex (handle (ThumbClick i) s) = int i)
   \<and> (isLoading s \<and> \<not> isLoading (handle e s) \<longrightarrow> loadOrError e)
   \<and> (rendered s \<longrightarrow> \<not> isLoading (handle ImgLoad s) \<and> \<not> isLoading (handle ImgError s))
   \<and> (preview s \<noteq> None \<longrightarrow>
        \<not> isLoading (handle PreviewLoad s) \<and> \<not> isLoading (handle PreviewError s))
   \<and> handle ImgError s = handle ImgLoad s
   \<and> handle PreviewError s = handle PreviewLoad s
   \<and> (isLoading s \<and> \<not> isLoading (preloadEffect c s) \<longrightarrow>
        c \<and> isOpen s \<and> (isOpen s, activeHref s) \<noteq> preloadDeps s
        \<and> activeHref s \<noteq> None \<and> activeHref s \<noteq> Some [])
   \<and> (isOpen s \<and> (isOpen s, activeHref s) \<noteq> preloadDeps s
        \<and> activeHref s \<noteq> None \<and> activeHref s \<noteq> Some [] \<longrightarrow>
        isLoading (preloadEffect c s) = (\<not> c))"
proof -
  have 1: "i < length (items s) \<longrightarrow>
      isLoading (handle (ThumbClick i) s) \<and> isOpen (handle (ThumbClick i) s)
      \<and> activeIndex (handle (ThumbClick i) s) = int i"
    by (simp add: thumbClick_def)
  have 2: "isLoading s \<and> \<not> isLoading (handle e s) \<longrightarrow> loadOrError e"
    using handle_clears_only_on_signal by blast
  have 3: "rendered s \<longrightarrow> \<not> isLoading (handle ImgLoad s) \<and> \<not> isLoading (handle ImgError s)"
    by (simp add: imgOnLoad_def imgOnError_def)
  have 4: "preview s \<noteq> None \<longrightarrow>
        \<not> isLoading (handle PreviewLoad s) \<and> \<not> isLoading (handle PreviewError s)"
    by (simp add: handleComplete_def)
  have 5: "handle ImgError s = handle ImgLoad s" "handle PreviewError s = handle PreviewLoad s"
    by (simp_all add: imgOnLoad_def imgOnError_def)
  have 6: "isLoading s \<and> \<not> isLoading (preloadEffect c s) \<longrightarrow>
        c \<and> isOpen s \<and> (isOpen s, activeHref s) \<noteq> preloadDeps s
        \<and> activeHref s \<noteq> None \<and> activeHref s \<noteq> Some []"
    using preloadEffect_clears [of s c] by blast
  have 7: "isOpen s \<and> (isOpen s, activeHref s) \<noteq> preloadDeps s
        \<and> activeHref s \<noteq> None \<and> activeHref s \<noteq> Some [] \<longrightarrow>
        isLoading (preloadEffect c s) = (\<not> c)"
  proof
    assume a: "isOpen s \<and> (isOpen s, activeHref s) \<noteq> preloadDeps s
        \<and> activeHref s \<noteq> None \<and> activeHref s \<noteq> Some []"
    then obtain h where h: "activeHref s = Some h" "h \<noteq> []" by auto
    have o: "isOpen s" and d: "(isOpen s, activeHref s) \<noteq> preloadDeps s"
      using a by blast+
    from o d h have "preloadEffect c s = s\<lparr>preloadDeps := (True, Some h), preview := Some h, isLoading := \<not> c\<rparr>"
      by (rule preloadEffect_rerun)
    then show "isLoading (preloadEffect c s) = (\<not> c)" by simp
  qed
  show ?thesis
    by (intro conjI 1 2 3 4 5 6 7)
qed

theorem loading_flag_set_and_cleared_witness:
  "0 < length (items (mounted sampleThumbs))
   \<and> isLoading (handle (ThumbClick 0) (mounted sampleThumbs))
   \<and> isLoading openedFirst \<and> preview openedFirst \<noteq> None
   \<and> \<not> isLoading (handle PreviewError openedFirst)
   \<and> loadOrError PreviewError
   \<and> isOpen (handle (ThumbClick 0) (mounted sampleThumbs))
   \<and> (isOpen (handle (ThumbClick 0) (mounted sampleThumbs)),
        activeHref (handle (ThumbClick 0) (mounted sampleThumbs)))
       \<noteq> preloadDeps (handle (ThumbClick 0) (mounted sampleThumbs))
   \<and> activeHref (handle (ThumbClick 0) (mounted sampleThumbs)) \<noteq> None
   \<and> activeHref (handle (ThumbClick 0) (mounted sampleThumbs)) \<noteq> Some []
   \<and> \<not> isLoading (preloadEffect True (handle (ThumbClick 0) (mounted sampleThumbs)))"
proof -
  let ?h = "handle (ThumbClick 0) (mounted sampleThumbs)"
  have n: "0 < length (items (mounted sampleThumbs))"
    by (simp add: sample_mounted)
  have h: "isOpen ?h \<and> (isOpen ?h, activeHref ?h) \<noteq> preloadDeps ?h
           \<and> activeHref ?h \<noteq> None \<and> activeHref ?h \<noteq> Some []"
    unfolding sample_clicked by (simp add: activeHref_def activeItem_def)
  have p: "isLoading openedFirst" "preview openedFirst \<noteq> None"
    by (simp_all add: openedFirst_facts)
  have sig: "loadOrError PreviewError" by simp
  note t1 = loading_flag_set_and_cleared [of 0 "mounted sampleThumbs" PreviewError True]
  note t2 = loading_flag_set_and_cleared [of 0 openedFirst PreviewError True]
  note t3 = loading_flag_set_and_cleared [of 0 ?h PreviewError True]
  have a: "isLoading ?h"
    using t1 [THEN conjunct1] n by blast
  have b: "\<not> isLoading (handle PreviewError openedFirst)"
    using t2 [THEN conjunct2, THEN conjunct2, THEN conjunct2, THEN conjunct1] p(2) by blast
  have "isLoading (preloadEffect True ?h) = (\<not> True)"
    using t3 [THEN conjunct2, THEN conjunct2, THEN conjunct2, THEN conjunct2, THEN conjunct2,
        THEN conjunct2, THEN conjunct2] h
    by (rule mp)
  then have c: "\<not> isLoading (preloadEffect True ?h)" by simp
  from h have h1: "isOpen ?h" and h2: "(isOpen ?h, activeHref ?h) \<noteq> preloadDeps ?h"
    and h3: "activeHref ?h \<noteq> None" and h4: "activeHref ?h \<noteq> Some []"
    by blast+
  show ?thesis
    by (intro conjI n a p b sig h1 h2 h3 h4 c)
qed

text \<open>
  C3, as stated, says that the flag is cleared exactly when load or error is signalled.
  On the sample gallery the click on the first thumbnail sets the flag, and the turn ends
  with the flag cleared although the only event was the click: the preview image was
  complete at once.
\<close>

theorem loading_cleared_without_signal:
  "\<not> loadOrError (ThumbClick 0)
   \<and> isLoading (handle (ThumbClick 0) (mounted sampleThumbs))
   \<and> \<not> isLoading (step (ThumbClick 0, True) (mounted sampleThumbs))"
  by (simp add: step_def sample_mounted thumbClick_def preloadEffect_def
      activeHref_def activeItem_def)

text \<open>
  C10.  An anchor without \<^verbatim>\<open>href\<close> gives an item whose link target is empty.  For such an
  active item the preload effect leaves the loading flag as it is and attaches no preview
  image.  After the opening click on such an item the flag is set, and it stays set over
  every sequence of turns that keeps the lightbox open on an item without link target and
  contains no load or error of the visible image; load or error of the visible image
  clears it.
\<close>

theorem empty_link_target_keeps_loading:
  "(i < length anchors \<and> hrefAttribute (anchors ! i) = None \<longrightarrow>
      href (getGalleryItems anchors ! i) = [])
   \<and> (activeHref s = Some [] \<longrightarrow>
        isLoading (preloadEffect c s) = isLoading s
        \<and> (coherent s \<longrightarrow> preview (preloadEffect c s) = None))
   \<and> (coherent s \<and> j < length (items s) \<and> href (items s ! j) = [] \<longrightarrow>
        awaitingImage (step (ThumbClick j, c) s) \<and> isLoading (step (ThumbClick j, c) s))
   \<and> (awaitingImage s \<and> emptyTargetShown ecs s \<longrightarrow>
        awaitingImage (steps ecs s) \<and> isLoading (steps ecs s))
   \<and> (awaitingImage s \<longrightarrow>
        \<not> isLoading (step (ImgLoad, c) s) \<and> \<not> isLoading (step (ImgError, c) s))"
proof -
  have 1: "i < length anchors \<and> hrefAttribute (anchors ! i) = None \<longrightarrow>
      href (getGalleryItems anchors ! i) = []"
    by (simp add: href_without_attribute)
  have 2: "activeHref s = Some [] \<longrightarrow>
        isLoading (preloadEffect c s) = isLoading s
        \<and> (coherent s \<longrightarrow> preview (preloadEffect c s) = None)"
    by (simp add: preloadEffect_empty_target)
  have 3: "coherent s \<and> j < length (items s) \<and> href (items s ! j) = [] \<longrightarrow>
        awaitingImage (step (ThumbClick j, c) s) \<and> isLoading (step (ThumbClick j, c) s)"
  proof
    assume a: "coherent s \<and> j < length (items s) \<and> href (items s ! j) = []"
    then have "awaitingImage (step (ThumbClick j, c) s)"
      by (intro awaitingImage_open) blast+
    then show "awaitingImage (step (ThumbClick j, c) s) \<and> isLoading (step (ThumbClick j, c) s)"
      by (simp add: awaitingImage_def)
  qed
  have 4: "awaitingImage s \<and> emptyTargetShown ecs s \<longrightarrow>
        awaitingImage (steps ecs s) \<and> isLoading (steps ecs s)"
  proof
    assume "awaitingImage s \<and> emptyTargetShown ecs s"
    then have "awaitingImage (steps ecs s)"
      by (intro awaitingImage_steps) blast+
    then show "awaitingImage (steps ecs s) \<and> isLoading (steps ecs s)"
      by (simp add: awaitingImage_def)
  qed
  have 5: "awaitingImage s \<longrightarrow>
        \<not> isLoading (step (ImgLoad, c) s) \<and> \<not> isLoading (step (ImgError, c) s)"
    using awaitingImage_image_event by blast
  show ?thesis
    by (intro conjI 1 2 3 4 5)
qed

theorem empty_link_target_keeps_loading_witness:
  "2 < length sampleThumbs \<and> hrefAttribute (sampleThumbs ! 2) = None
   \<and> href (getGalleryItems sampleThumbs ! 2) = []
   \<and> coherent (mounted sampleThumbs) \<and> 2 < length (items (mounted sampleThumbs))
   \<and> href (items (mounted sampleThumbs) ! 2) = []
   \<and> awaitingImage (step (ThumbClick 2, True) (mounted sampleThumbs))
   \<and> activeHref openedThird = Some []
   \<and> emptyTargetShown [(PopupClick True, True), (KeyDown ''Enter'', True), (ThumbClick 2, True)]
        openedThird
   \<and> isLoading (steps [(PopupClick True, True), (KeyDown ''Enter'', True), (ThumbClick 2, True)]
        openedThird)
   \<and> \<not> isLoading (step (ImgError, True) openedThird)"
proof -
  let ?ecs = "[(PopupClick True, True), (KeyDown ''Enter'', True), (ThumbClick 2, True)]"
  have a: "2 < length sampleThumbs" "hrefAttribute (sampleThumbs ! 2) = None"
    by (simp_all add: sampleThumbs_def)
  have b0: "coherent (mounted sampleThumbs)"
    by (rule coherent_mounted)
  have b: "2 < length (items (mounted sampleThumbs))"
    "href (items (mounted sampleThumbs) ! 2) = []"
    by (simp_all add: sample_mounted)
  have h: "activeHref openedThird = Some []"
    using sample_third_awaiting by (simp add: awaitingImage_def)
  note t1 = empty_link_target_keeps_loading
      [of 2 sampleThumbs "mounted sampleThumbs" True 2 ?ecs]
  note t2 = empty_link_target_keeps_loading
      [of 2 sampleThumbs openedThird True 2 ?ecs]
  have 1: "href (getGalleryItems sampleThumbs ! 2) = []"
    using t1 [THEN conjunct1] a by blast
  have 2: "awaitingImage (step (ThumbClick 2, True) (mounted sampleThumbs))"
    using t1 [THEN conjunct2, THEN conjunct2, THEN conjunct1] b0 b by blast
  then have aw: "awaitingImage openedThird"
    by (simp add: openedThird_def)
  have 3: "isLoading (steps ?ecs openedThird)"
    using t2 [THEN conjunct2, THEN conjunct2, THEN conjunct2, THEN conjunct1]
      aw sample_third_shown by blast
  have 4: "\<not> isLoading (step (ImgError, True) openedThird)"
    using t2 [THEN conjunct2, THEN conjunct2, THEN conjunct2, THEN conjunct2] aw by blast
  show ?thesis
    by (intro conjI a 1 b0 b 2 h sample_third_shown 3 4)
qed










section \<open>Claims about the gallery scan and the footer\<close>

lemma siblingMarkup_concat:
  "siblingMarkup a nds = concat (map outerHTML (filter (\<lambda>nd. ident nd \<noteq> a) nds))"
  by (induction nds) simp_all

text \<open>
  C7.  The list built at mount has one item per scanned anchor, in the order of the scan.
  The link target of an item is the \<^verbatim>\<open>href\<close> attribute of its anchor (the empty string when
  the anchor has none); its caption is the outer markup of the children of the anchor's
  parent, the anchor itself left out, joined in order, and it is absent when that markup is
  empty, so a caption that is present is never empty.
\<close>

theorem gallery_items_follow_anchors:
  "length (getGalleryItems anchors) = length anchors
   \<and> (\<forall>i < length anchors.
        href (getGalleryItems anchors ! i)
          = (case hrefAttribute (anchors ! i) of None \<Rightarrow> [] | Some h \<Rightarrow> h)
        \<and> caption (getGalleryItems anchors ! i)
          = (let m = siblingMarkup (self (anchors ! i))
                       (case parentChildren (anchors ! i) of None \<Rightarrow> [] | Some cs \<Rightarrow> cs)
             in if m = [] then None else Some m)
        \<and> caption (getGalleryItems anchors ! i) \<noteq> Some [])"
  by (simp add: getGalleryItems_def Let_def siblingMarkup_concat)

theorem gallery_items_follow_anchors_witness:
  "0 < length sampleThumbs \<and> 1 < length sampleThumbs \<and> 2 < length sampleThumbs
   \<and> length (getGalleryItems sampleThumbs) = 3
   \<and> href (getGalleryItems sampleThumbs ! 0) = ''01.jpg''
   \<and> caption (getGalleryItems sampleThumbs ! 0) = Some ''<h2>One</h2><p>First</p>''
   \<and> caption (getGalleryItems sampleThumbs ! 1) = None
   \<and> href (getGalleryItems sampleThumbs ! 2) = []
   \<and> caption (getGalleryItems sampleThumbs ! 2) = Some ''<h2>Three</h2>''"
proof -
  have n: "length sampleThumbs = 3"
    by (simp add: sampleThumbs_def)
  note inst = gallery_items_follow_anchors [of sampleThumbs]
  have len: "length (getGalleryItems sampleThumbs) = 3"
    using inst n by simp
  have at: "\<And>i. i < 3 \<Longrightarrow>
        href (getGalleryItems sampleThumbs ! i)
          = (case hrefAttribute (sampleThumbs ! i) of None \<Rightarrow> [] | Some h \<Rightarrow> h)
        \<and> caption (getGalleryItems sampleThumbs ! i)
          = (let m = siblingMarkup (self (sampleThumbs ! i))
                       (case parentChildren (sampleThumbs ! i) of None \<Rightarrow> [] | Some cs \<Rightarrow> cs)
             in if m = [] then None else Some m)"
    using inst n by simp
  have 0: "href (getGalleryItems sampleThumbs ! 0) = ''01.jpg''"
    "caption (getGalleryItems sampleThumbs ! 0) = Some ''<h2>One</h2><p>First</p>''"
    using at [of 0] by (simp_all add: sampleThumbs_def)
  have 1: "caption (getGalleryItems sampleThumbs ! 1) = None"
    using at [of 1] by (simp add: sampleThumbs_def)
  have 2: "href (getGalleryItems sampleThumbs ! 2) = []"
    "caption (getGalleryItems sampleThumbs ! 2) = Some ''<h2>Three</h2>''"
    using at [of 2] by (simp_all add: sampleThumbs_def)
  show ?thesis
    using n len 0 1 2 by simp
qed

lemma appendChild_parent: "parentElement (appendChild p c d) c = Some p"
  by (simp add: appendChild_def Let_def)

lemma appendChild_last:
  "children (appendChild p c d) p \<noteq> []" "last (children (appendChild p c d) p) = c"
  by (simp_all add: appendChild_def Let_def)

lemma placed_updateLocation:
  "placed r \<lparr>tree = updateLocation r (maxWidth980 w) d, viewport = w\<rparr>"
  by (simp add: placed_def updateLocation_def appendChild_parent appendChild_last)

lemma placed_resize:
  assumes "placed r pg"
  shows "placed r (resize r w pg)"
proof (cases "maxWidth980 w \<noteq> maxWidth980 (viewport pg)")
  case True
  then have e: "resize r w pg = \<lparr>tree = updateLocation r (maxWidth980 w) (tree pg), viewport = w\<rparr>"
    unfolding resize_def by (rule if_P)
  show ?thesis
    unfolding e by (rule placed_updateLocation)
next
  case False
  then have "maxWidth980 w = maxWidth980 (viewport pg)" by simp
  then show ?thesis
    using assms by (simp add: resize_def placed_def)
qed

lemma placed_resizes: "placed r pg \<Longrightarrow> placed r (resizes r ws pg)"
  unfolding resizes_def
  by (induction ws arbitrary: pg) (simp_all add: placed_resize)

lemma viewport_resize [simp]: "viewport (resize r w pg) = w"
  by (simp add: resize_def)

lemma viewport_resizes:
  "viewport (resizes r ws pg) = (if ws = [] then viewport pg else last ws)"
  unfolding resizes_def
  by (induction ws arbitrary: pg) simp_all

lemma lookupFooter_Some:
  assumes "lookupFooter d found = Some r"
  shows "found = Some (copyright r)" "parentElement d (copyright r) = Some (parent r)"
    "\<exists>g. parentElement d (parent r) = Some g \<and> lastElementChild d g = Some (lastParent r)"
  using assms
  by (auto simp: lookupFooter_def split: option.splits)

lemma setup_Some:
  assumes "setupFooterCopyright found m d = (Some r, d1)"
  shows "lookupFooter d found = Some r" "d1 = updateLocation r m d"
  using assms
  by (auto simp: setupFooterCopyright_def split: option.splits)

lemma setup_None:
  "lookupFooter d found = None \<Longrightarrow> setupFooterCopyright found m d = (None, d)"
  by (simp add: setupFooterCopyright_def)

text \<open>
  C6.  When the setup finds the copyright block, its parent (the original container) and
  the last element child of the parent's parent (the container for narrow layouts), then
  after the setup and after any sequence of resizes, each of which runs the change
  listener when it flips the query, the block is the last child of the narrow container if
  the viewport is at most 980 pixels wide and of the original container otherwise.  When the
  two containers are different elements, the block is in the narrow one exactly when the
  query matches.
\<close>

theorem copyright_follows_media_query:
  assumes "setupFooterCopyright found (maxWidth980 w0) d = (Some r, d1)"
  shows "found = Some (copyright r) \<and> parentElement d (copyright r) = Some (parent r)
       \<and> (\<exists>g. parentElement d (parent r) = Some g \<and> lastElementChild d g = Some (lastParent r))
       \<and> viewport (resizes r ws \<lparr>tree = d1, viewport = w0\<rparr>) = (if ws = [] then w0 else last ws)
       \<and> parentElement (tree (resizes r ws \<lparr>tree = d1, viewport = w0\<rparr>)) (copyright r)
           = Some (if viewport (resizes r ws \<lparr>tree = d1, viewport = w0\<rparr>) \<le> 980
                   then lastParent r else parent r)
       \<and> placed r (resizes r ws \<lparr>tree = d1, viewport = w0\<rparr>)
       \<and> (parent r \<noteq> lastParent r \<longrightarrow>
            (parentElement (tree (resizes r ws \<lparr>tree = d1, viewport = w0\<rparr>)) (copyright r)
               = Some (lastParent r))
            = (viewport (resizes r ws \<lparr>tree = d1, viewport = w0\<rparr>) \<le> 980))
       \<and> (maxWidth980 w \<noteq> maxWidth980 (viewport pg) \<longrightarrow>
            tree (resize r w pg) = updateLocation r (maxWidth980 w) (tree pg))"
proof -
  let ?pg = "resizes r ws \<lparr>tree = d1, viewport = w0\<rparr>"
  have l: "lookupFooter d found = Some r" and u: "d1 = updateLocation r (maxWidth980 w0) d"
    using setup_Some [OF assms] by simp_all
  have p0: "placed r \<lparr>tree = d1, viewport = w0\<rparr>"
    unfolding u by (rule placed_updateLocation)
  then have p: "placed r ?pg"
    by (rule placed_resizes)
  then have loc: "parentElement (tree ?pg) (copyright r)
           = Some (if viewport ?pg \<le> 980 then lastParent r else parent r)"
    by (simp add: placed_def maxWidth980_def Let_def)
  have v: "viewport ?pg = (if ws = [] then w0 else last ws)"
    by (simp add: viewport_resizes)
  have ex: "parent r \<noteq> lastParent r \<longrightarrow>
            (parentElement (tree ?pg) (copyright r) = Some (lastParent r)) = (viewport ?pg \<le> 980)"
    unfolding loc by simp
  have ch: "maxWidth980 w \<noteq> maxWidth980 (viewport pg) \<longrightarrow>
            tree (resize r w pg) = updateLocation r (maxWidth980 w) (tree pg)"
    by (simp add: resize_def)
  show ?thesis
    using lookupFooter_Some [OF l] v loc p ex ch by (intro conjI) assumption+
qed

lemma sample_lookup: "lookupFooter sampleDom (Some 65) = Some sampleRefs"
  by (simp add: lookupFooter_def sampleDom_def sampleRefs_def lastElementChild_def)

theorem copyright_follows_media_query_witness:
  "setupFooterCopyright (Some 65) (maxWidth980 1280) sampleDom
     = (Some sampleRefs, updateLocation sampleRefs (maxWidth980 1280) sampleDom)
   \<and> parent sampleRefs \<noteq> lastParent sampleRefs
   \<and> parentElement
        (tree (resizes sampleRefs []
           \<lparr>tree = updateLocation sampleRefs (maxWidth980 1280) sampleDom, viewport = 1280\<rparr>))
        (copyright sampleRefs) = Some (parent sampleRefs)
   \<and> parentElement
        (tree (resizes sampleRefs [1024, 900]
           \<lparr>tree = updateLocation sampleRefs (maxWidth980 1280) sampleDom, viewport = 1280\<rparr>))
        (copyright sampleRefs) = Some (lastParent sampleRefs)
   \<and> parentElement
        (tree (resizes sampleRefs [1024, 900, 980, 981]
           \<lparr>tree = updateLocation sampleRefs (maxWidth980 1280) sampleDom, viewport = 1280\<rparr>))
        (copyright sampleRefs) = Some (parent sampleRefs)"
proof -
  let ?d1 = "updateLocation sampleRefs (maxWidth980 1280) sampleDom"
  have s: "setupFooterCopyright (Some 65) (maxWidth980 1280) sampleDom = (Some sampleRefs, ?d1)"
    by (simp add: setupFooterCopyright_def sample_lookup)
  have ne: "parent sampleRefs \<noteq> lastParent sampleRefs"
    by (simp add: sampleRefs_def)
  let ?pg0 = "\<lparr>tree = ?d1, viewport = 1280\<rparr>"
  note inst = copyright_follows_media_query [OF s, where w = 980 and pg = ?pg0]
  have a: "parentElement (tree (resizes sampleRefs [] ?pg0))
             (copyright sampleRefs) = Some (parent sampleRefs)"
    using inst [where ws = "[]", THEN conjunct2, THEN conjunct2, THEN conjunct2,
        THEN conjunct2, THEN conjunct1]
    by (simp add: viewport_resizes)
  have b: "parentElement (tree (resizes sampleRefs [1024, 900] ?pg0))
             (copyright sampleRefs) = Some (lastParent sampleRefs)"
    using inst [where ws = "[1024, 900]", THEN conjunct2, THEN conjunct2, THEN conjunct2,
        THEN conjunct2, THEN conjunct1]
    by (simp add: viewport_resizes)
  have c: "parentElement (tree (resizes sampleRefs [1024, 900, 980, 981] ?pg0))
             (copyright sampleRefs) = Some (parent sampleRefs)"
    using inst [where ws = "[1024, 900, 980, 981]", THEN conjunct2, THEN conjunct2, THEN conjunct2,
        THEN conjunct2, THEN conjunct1]
    by (simp add: viewport_resizes)
  show ?thesis
    by (intro conjI s ne a b c)
qed

end
